theory Spec2Isabelle
  imports Main "HOL-Library.AList"
begin

section \<open>Python strings\<close>

text \<open>
  A Python \<open>str\<close> is a sequence of Unicode code points. The markers of the portal
  contain Romanian letters beyond ASCII (U+0103, U+00E2, U+00EE), so a string is a
  list of code points, not of bytes. \<open>ustr\<close> turns an ASCII literal into such a list.
\<close>

type_synonym codepoint = nat
type_synonym pystr = "codepoint list"

definition ustr :: "string \<Rightarrow> pystr" where
  "ustr cs = map of_char cs"

text \<open>
  The Unicode tables behind \<open>re\<close>'s \<open>\d\<close> / \<open>\D\<close>, \<open>str.split()\<close>, \<open>str.strip()\<close>,
  \<open>str.lower()\<close>, \<open>str.upper()\<close> and \<open>repr\<close> belong to the Python runtime, not to the
  repository: the model takes them as a parameter, and every theorem below holds for
  any such tables.
\<close>

record unicode =
  uc_digit :: "codepoint \<Rightarrow> bool"
  uc_space :: "codepoint \<Rightarrow> bool"
  uc_lower :: "pystr \<Rightarrow> pystr"
  uc_upper :: "pystr \<Rightarrow> pystr"
  uc_repr :: "pystr \<Rightarrow> pystr"

text \<open>\<open>s.startswith(p)\<close>\<close>

definition startswith :: "pystr \<Rightarrow> pystr \<Rightarrow> bool" where
  "startswith s p = (take (length p) s = p)"

text \<open>\<open>sub in s\<close>\<close>

fun contains :: "pystr \<Rightarrow> pystr \<Rightarrow> bool" where
  "contains sub [] = (sub = [])"
| "contains sub (c # cs) = (startswith (c # cs) sub \<or> contains sub cs)"

text \<open>\<open>s.strip()\<close>, \<open>s.strip(chars)\<close> and \<open>s.lstrip(chars)\<close>\<close>

definition py_strip :: "unicode \<Rightarrow> pystr \<Rightarrow> pystr" where
  "py_strip U s = rev (dropWhile (uc_space U) (rev (dropWhile (uc_space U) s)))"

definition lstrip_chars :: "codepoint list \<Rightarrow> pystr \<Rightarrow> pystr" where
  "lstrip_chars chars s = dropWhile (\<lambda>c. c \<in> set chars) s"

definition strip_chars :: "codepoint list \<Rightarrow> pystr \<Rightarrow> pystr" where
  "strip_chars chars s = rev (lstrip_chars chars (rev (lstrip_chars chars s)))"

text \<open>\<open>re.sub(r"\D", "", s)\<close> and \<open>re.fullmatch(r"\d{lo,hi}", s)\<close>\<close>

definition re_sub_nondigit :: "unicode \<Rightarrow> pystr \<Rightarrow> pystr" where
  "re_sub_nondigit U s = filter (uc_digit U) s"

definition fullmatch_digits :: "unicode \<Rightarrow> nat \<Rightarrow> nat \<Rightarrow> pystr \<Rightarrow> bool" where
  "fullmatch_digits U lo hi s = (lo \<le> length s \<and> length s \<le> hi \<and> list_all (uc_digit U) s)"

text \<open>\<open>str(n)\<close> for a non-negative integer (an HTTP status).\<close>

fun str_nat :: "nat \<Rightarrow> pystr" where
  "str_nat n = (if n < 10 then [48 + n] else str_nat (n div 10) @ [48 + n mod 10])"

declare str_nat.simps [simp del]

section \<open>Exceptions\<close>

text \<open>
  An exception is its class, its message (\<open>str(e)\<close>) and its \<open>__cause__\<close> (set by
  \<open>raise ... from e\<close>). Only the classes the handlers of the source tell apart are
  distinguished. \<open>asyncio.CancelledError\<close> and \<open>KeyboardInterrupt\<close> derive from
  \<open>BaseException\<close> and not from \<open>Exception\<close>: a handler \<open>except Exception\<close> lets them
  through. \<open>is_exception c\<close> says that the class \<open>c\<close> derives from \<open>Exception\<close>.
\<close>

datatype exn_class = UpdateFailed | OCRAPIError | TimeoutError | IndexError | ValueError
  | AttributeError | OtherException | CancelledError | KeyboardInterrupt

fun is_exception :: "exn_class \<Rightarrow> bool" where
  "is_exception CancelledError = False"
| "is_exception KeyboardInterrupt = False"
| "is_exception c = True"

datatype exn = Exn (exn_class: exn_class) (exn_msg: pystr) (exn_cause: "exn option")

text \<open>\<open>raises_class c r\<close>: the call whose outcome is \<open>r\<close> raised an exception of class \<open>c\<close>.\<close>

definition raises_class :: "exn_class \<Rightarrow> exn + 'a \<Rightarrow> bool" where
  "raises_class c r = (case r of Inl e \<Rightarrow> exn_class e = c | Inr v \<Rightarrow> False)"

section \<open>OCR client: \<open>solve_captcha_with_local_api\<close>\<close>

text \<open>
  What the OCR endpoint does with the upload: the request raises, or it answers with a
  status, and then the body is read as text (for a status other than 200) or as JSON
  (for 200); each read may raise. The JSON body is represented by
  \<open>str(data.get("text", ""))\<close> before the default is applied: \<open>None\<close> when the key is
  missing. A body that is not a JSON object makes \<open>data.get\<close> raise and is a raising read.
\<close>

datatype ocr_response =
  OcrRaises exn
  | OcrResponse nat "exn + pystr" "exn + pystr option"

text \<open>Lines 99-133: the body of the inner \<open>try\<close>.\<close>

definition ocr_post :: "unicode \<Rightarrow> ocr_response \<Rightarrow> exn + pystr" where
  "ocr_post U r =
    (case r of
      OcrRaises e \<Rightarrow> Inl e
    | OcrResponse status text_body json_body \<Rightarrow>
        if status \<noteq> 200 then
          (case text_body of
            Inl e \<Rightarrow> Inl e
          | Inr text \<Rightarrow>
              Inl (Exn OCRAPIError
                (ustr ''OCR API HTTP '' @ str_nat status @ ustr '': '' @ take 200 text) None))
        else
          (case json_body of
            Inl e \<Rightarrow> Inl e
          | Inr field \<Rightarrow>
              let raw_text = py_strip U (case field of None \<Rightarrow> [] | Some t \<Rightarrow> t) in
              if raw_text = [] then
                Inl (Exn OCRAPIError (ustr ''OCR API returned empty text'') None)
              else
                let digits_only = re_sub_nondigit U raw_text in
                if \<not> fullmatch_digits U 1 6 digits_only then
                  Inl (Exn OCRAPIError
                    (ustr ''Invalid CAPTCHA format from OCR API: raw='' @ uc_repr U raw_text
                      @ ustr '', digits='' @ uc_repr U digits_only) None)
                else
                  Inr (if length digits_only \<ge> 4 then take 4 digits_only else digits_only)))"

text \<open>Lines 135-137: \<open>except asyncio.TimeoutError\<close>.\<close>

definition ocr_inner_try :: "unicode \<Rightarrow> ocr_response \<Rightarrow> exn + pystr" where
  "ocr_inner_try U r =
    (case ocr_post U r of
      Inl e \<Rightarrow>
        if exn_class e = TimeoutError then Inl (Exn OCRAPIError (ustr ''OCR API timeout'') None)
        else Inl e
    | Inr s \<Rightarrow> Inr s)"

text \<open>Lines 139-141: \<open>except Exception as e: raise OCRAPIError(...) from e\<close>.\<close>

definition solve_captcha_with_local_api :: "unicode \<Rightarrow> ocr_response \<Rightarrow> exn + pystr" where
  "solve_captcha_with_local_api U r =
    (case ocr_inner_try U r of
      Inl e \<Rightarrow>
        if is_exception (exn_class e)
        then Inl (Exn OCRAPIError (ustr ''OCR processing failed'') (Some e))
        else Inl e
    | Inr s \<Rightarrow> Inr s)"

text \<open>
  Tables for running the model on concrete inputs: Python's tables restricted to the
  characters the examples use. ASCII digits are \<open>\d\<close>; the ASCII whitespace characters
  are whitespace; \<open>lower\<close> and \<open>upper\<close> act on the ASCII letters; \<open>repr\<close> quotes a string
  of printable characters that has no quote and no backslash.
\<close>

definition ascii_lower :: "codepoint \<Rightarrow> codepoint" where
  "ascii_lower c = (if 65 \<le> c \<and> c \<le> 90 then c + 32 else c)"

definition ascii_upper :: "codepoint \<Rightarrow> codepoint" where
  "ascii_upper c = (if 97 \<le> c \<and> c \<le> 122 then c - 32 else c)"

definition py_tables :: unicode where
  "py_tables =
    \<lparr> uc_digit = (\<lambda>c. 48 \<le> c \<and> c \<le> 57),
      uc_space = (\<lambda>c. c \<in> {9, 10, 11, 12, 13, 28, 29, 30, 31, 32}),
      uc_lower = map ascii_lower,
      uc_upper = map ascii_upper,
      uc_repr = (\<lambda>s. 39 # s @ [39]) \<rparr>"

section \<open>Form extractor: \<open>_build_form_data_from_page\<close>\<close>

definition BASE_URL :: pystr where
  "BASE_URL = ustr ''https://prog.rarom.ro/rarpol/rarpol.asp''"

text \<open>
  \<open>s.split(sep, 1)\<close> for a non-empty \<open>sep\<close>: \<open>None\<close> stands for the one-element list
  \<open>[s]\<close> (no occurrence), \<open>Some (a, b)\<close> for \<open>[a, b]\<close>, cut at the first occurrence.
  \<open>s.rsplit(sep, 1)\<close> cuts at the last occurrence.
\<close>

fun split_once :: "pystr \<Rightarrow> pystr \<Rightarrow> (pystr \<times> pystr) option" where
  "split_once sep [] = None"
| "split_once sep (c # cs) =
    (if startswith (c # cs) sep then Some ([], drop (length sep) (c # cs))
     else map_option (\<lambda>(a, b). (c # a, b)) (split_once sep cs))"

definition rsplit_once :: "pystr \<Rightarrow> pystr \<Rightarrow> (pystr \<times> pystr) option" where
  "rsplit_once sep s = map_option (\<lambda>(a, b). (rev b, rev a)) (split_once (rev sep) (rev s))"

text \<open>
  The part of a parsed page (\<open>BeautifulSoup(html, "html.parser")\<close>) that the source
  reads: the \<open>form\<close> elements in document order, each with its \<open>name\<close> and \<open>action\<close>
  attributes and its \<open>input\<close> descendants (their \<open>name\<close> and \<open>value\<close> attributes), and the
  element \<open>img\<close> with id \<open>imgVerf\<close> (absent, or present with or without a \<open>src\<close>).
\<close>

record input_el =
  input_name :: "pystr option"
  input_value :: "pystr option"

record form_el =
  form_name :: "pystr option"
  form_action :: "pystr option"
  form_inputs :: "input_el list"

record soup =
  soup_forms :: "form_el list"
  soup_imgVerf :: "pystr option option"

text \<open>
  \<open>form_data\<close> is a Python dict: keys are unique, an assignment to an existing key keeps
  its position and a new key goes last, which is \<open>AList.update\<close> on an association list.
\<close>

type_synonym form_data = "(pystr \<times> pystr) list"

definition has_key :: "pystr \<Rightarrow> form_data \<Rightarrow> bool" where
  "has_key k fd = (map_of fd k \<noteq> None)"

text \<open>Lines 154-158: the form named \<open>frm\<close>, else the first form.\<close>

definition find_form :: "soup \<Rightarrow> form_el option" where
  "find_form sp =
    (case find (\<lambda>f. form_name f = Some (ustr ''frm'')) (soup_forms sp) of
      Some f \<Rightarrow> Some f
    | None \<Rightarrow> (case soup_forms sp of [] \<Rightarrow> None | f # _ \<Rightarrow> Some f))"

text \<open>Lines 160-177: the POST URL, from \<open>action = form_el.get("action") or ""\<close>.\<close>

definition base_root :: pystr where
  "base_root = (case rsplit_once [47] BASE_URL of Some (a, b) \<Rightarrow> a | None \<Rightarrow> BASE_URL)"

definition resolve_action :: "pystr \<Rightarrow> pystr" where
  "resolve_action action =
    (if startswith action (ustr ''http'') then action
     else
       let action_clean =
         (if contains [35] action
          then (case split_once [35] action of Some (a, b) \<Rightarrow> a | None \<Rightarrow> action)
          else action)
       in
         if action_clean \<noteq> [] then
           (if startswith action_clean [47] then ustr ''https://prog.rarom.ro'' @ action_clean
            else base_root @ [47] @ action_clean)
         else BASE_URL)"

text \<open>Lines 179-187: the loop over the inputs.\<close>

fun extract_fields :: "input_el list \<Rightarrow> form_data \<Rightarrow> form_data" where
  "extract_fields [] fd = fd"
| "extract_fields (inp # inps) fd =
    (case input_name inp of
      None \<Rightarrow> extract_fields inps fd
    | Some name \<Rightarrow>
        if name = [] then extract_fields inps fd
        else extract_fields inps
          (AList.update name (case input_value inp of None \<Rightarrow> [] | Some v \<Rightarrow> v) fd))"

text \<open>Lines 189-193: the VIN field.\<close>

definition set_vin :: "unicode \<Rightarrow> pystr \<Rightarrow> form_data \<Rightarrow> form_data" where
  "set_vin U vin fd =
    (if has_key (ustr ''nr_id'') fd then AList.update (ustr ''nr_id'') (uc_upper U vin) fd
     else AList.update (ustr ''nr_id'') (uc_upper U vin) fd)"

text \<open>Lines 195-203: the CAPTCHA field.\<close>

definition set_captcha :: "pystr \<Rightarrow> form_data \<Rightarrow> form_data" where
  "set_captcha captcha_code fd =
    (if has_key (ustr ''verif_cod'') fd then AList.update (ustr ''verif_cod'') captcha_code fd
     else if has_key (ustr ''antirobot'') fd then AList.update (ustr ''antirobot'') captcha_code fd
     else AList.update (ustr ''verif_cod'') captcha_code fd)"

text \<open>Lines 205-207: the submit button; the label is \<open>Caut\<close> followed by U+0103.\<close>

definition submit_label :: pystr where
  "submit_label = ustr ''Caut'' @ [259]"

definition set_submit :: "form_data \<Rightarrow> form_data" where
  "set_submit fd =
    (case map_of fd (ustr ''trimite'') of
      Some v \<Rightarrow> if v = [] then AList.update (ustr ''trimite'') submit_label fd else fd
    | None \<Rightarrow> fd)"

definition action_of :: "form_el \<Rightarrow> pystr" where
  "action_of form = (case form_action form of None \<Rightarrow> [] | Some a \<Rightarrow> a)"

definition build_form_data_from_page ::
  "unicode \<Rightarrow> soup \<Rightarrow> pystr \<Rightarrow> pystr \<Rightarrow> exn + (pystr \<times> form_data)" where
  "build_form_data_from_page U sp vin captcha_code =
    (case find_form sp of
      None \<Rightarrow> Inl (Exn UpdateFailed (ustr ''Unable to find form element on RAR page'') None)
    | Some form \<Rightarrow>
        Inr (resolve_action (action_of form),
             set_submit (set_captcha captcha_code (set_vin U vin
               (extract_fields (form_inputs form) [])))))"

section \<open>Result parser\<close>

text \<open>
  What the source reads of the result page: the text of the response, the text of the
  element with id \<open>rezbgcolor\<close> (\<open>get_text(separator="\n", strip=True)\<close>; \<open>None\<close> when
  there is no such element), and the answer to the old-format query: no text node
  holding the marker, a node with no element after it, or a node and the stripped
  text of the element after it.
\<close>

datatype old_node = NoNode | NodeWithoutNext | NodeNext pystr

record result_page =
  result_text :: pystr
  result_div :: "pystr option"
  old_format_node :: old_node

definition marker_no_record :: pystr where
  "marker_no_record =
    ustr ''nu a fost g'' @ [259] @ ustr ''sit'' @ [259] @ ustr '' nicio '' @ [238]
      @ ustr ''nregistrare''"

definition marker_valid_until :: pystr where
  "marker_valid_until = ustr ''valabil'' @ [259] @ ustr '' p'' @ [226] @ ustr ''n'' @ [259] @ ustr '' la''"

definition marker_old_format :: pystr where
  "marker_old_format = ustr ''data expir'' @ [259] @ ustr ''rii''"

definition MONTH_MAP :: "(pystr \<times> pystr) list" where
  "MONTH_MAP =
    [(ustr ''ian'', ustr ''01''), (ustr ''feb'', ustr ''02''), (ustr ''mar'', ustr ''03''),
     (ustr ''apr'', ustr ''04''), (ustr ''mai'', ustr ''05''), (ustr ''iun'', ustr ''06''),
     (ustr ''iul'', ustr ''07''), (ustr ''aug'', ustr ''08''), (ustr ''sept'', ustr ''09''),
     (ustr ''oct'', ustr ''10''), (ustr ''nov'', ustr ''11''), (ustr ''dec'', ustr ''12'')]"

text \<open>\<open>MONTH_MAP.get(month, "01")\<close>\<close>

definition month_get :: "pystr \<Rightarrow> pystr" where
  "month_get month = (case map_of MONTH_MAP month of Some m \<Rightarrow> m | None \<Rightarrow> ustr ''01'')"

text \<open>\<open>s.zfill(width)\<close>: zeros go after a leading sign.\<close>

definition zfill :: "nat \<Rightarrow> pystr \<Rightarrow> pystr" where
  "zfill width s =
    (if width \<le> length s then s
     else (case s of
       [] \<Rightarrow> replicate width 48
     | c # cs \<Rightarrow>
         if c = 43 \<or> c = 45 then c # replicate (width - length s) 48 @ cs
         else replicate (width - length s) 48 @ s))"

text \<open>\<open>s.split()\<close>: the maximal runs of non-whitespace characters.\<close>

fun py_split_acc :: "(codepoint \<Rightarrow> bool) \<Rightarrow> pystr \<Rightarrow> pystr \<Rightarrow> pystr list" where
  "py_split_acc sp cur [] = (if cur = [] then [] else [cur])"
| "py_split_acc sp cur (c # cs) =
    (if sp c then (if cur = [] then py_split_acc sp [] cs else cur # py_split_acc sp [] cs)
     else py_split_acc sp (cur @ [c]) cs)"

definition py_split :: "unicode \<Rightarrow> pystr \<Rightarrow> pystr list" where
  "py_split U s = py_split_acc (uc_space U) [] s"

text \<open>\<open>s.split(d)\<close> for a one-character separator.\<close>

fun split_sep :: "codepoint \<Rightarrow> pystr \<Rightarrow> pystr list" where
  "split_sep d [] = [[]]"
| "split_sep d (c # cs) =
    (if c = d then [] # split_sep d cs
     else (case split_sep d cs of [] \<Rightarrow> [[c]] | w # ws \<Rightarrow> (c # w) # ws))"

text \<open>Lines 369-374, the body of the \<open>try\<close>; \<open>Inl\<close> is the exception the handler catches.\<close>

definition parse_new_format :: "unicode \<Rightarrow> pystr \<Rightarrow> exn + pystr" where
  "parse_new_format U lower =
    (case split_once marker_valid_until lower of
      None \<Rightarrow> Inl (Exn IndexError (ustr ''list index out of range'') None)
    | Some (before, fragment) \<Rightarrow>
        (case py_split U fragment of
          [] \<Rightarrow> Inl (Exn IndexError (ustr ''list index out of range'') None)
        | tok # toks \<Rightarrow>
            let raw_date = strip_chars [46] (py_strip U tok) in
            (case split_sep 45 raw_date of
              [day, month, year] \<Rightarrow> Inr (year @ [45] @ month_get month @ [45] @ zfill 2 day)
            | _ \<Rightarrow> Inl (Exn ValueError (ustr ''wrong number of values to unpack'') None))))"

text \<open>Lines 381-387, the body of the \<open>try\<close>; \<open>Inr None\<close> when no node is found.\<close>

definition parse_old_format :: "result_page \<Rightarrow> exn + pystr option" where
  "parse_old_format page =
    (case old_format_node page of
      NoNode \<Rightarrow> Inr None
    | NodeWithoutNext \<Rightarrow>
        Inl (Exn AttributeError (ustr ''NoneType object has no attribute get_text'') None)
    | NodeNext raw \<Rightarrow>
        (case split_sep 46 raw of
          [day, month, year] \<Rightarrow> Inr (Some (year @ [45] @ month @ [45] @ day))
        | _ \<Rightarrow> Inl (Exn ValueError (ustr ''wrong number of values to unpack'') None)))"

definition content_text :: "result_page \<Rightarrow> pystr" where
  "content_text page = (case result_div page of Some t \<Rightarrow> t | None \<Rightarrow> result_text page)"

text \<open>Lines 350-389: the status and the expiration date.\<close>

definition parse_result :: "unicode \<Rightarrow> result_page \<Rightarrow> pystr \<times> pystr" where
  "parse_result U page =
    (let lower = uc_lower U (content_text page) in
     if \<not> contains marker_no_record lower then
       (ustr ''Valid'',
        if contains marker_valid_until lower then
          (case parse_new_format U lower of Inr d \<Rightarrow> d | Inl e \<Rightarrow> ustr ''Unknown'')
        else if contains marker_old_format lower then
          (case parse_old_format page of Inr (Some d) \<Rightarrow> d | _ \<Rightarrow> ustr ''Unknown'')
        else ustr ''Unknown'')
     else (ustr ''Not Found'', ustr ''Unknown''))"

section \<open>Fetch orchestrator: \<open>fetch_itp\<close>\<close>

text \<open>
  The answer of the network to one request of the session: the request raises, or it
  gives a status and a body whose read (\<open>await response.text()\<close>, \<open>.read()\<close>) may raise.
  The landing page is represented by its parse, the result page by what the parser reads.
\<close>

datatype 'a http = HttpRaises exn | HttpResponse nat "exn + 'a"

text \<open>What the outside world answers during one attempt.\<close>

record attempt_io =
  io_landing :: "soup http"
  io_captcha :: "nat list http"
  io_ocr :: ocr_response
  io_post :: "result_page http"

text \<open>
  What a run does to the outside, in order: the GET of the landing page (\<open>BASE_URL\<close>),
  the GET of the CAPTCHA image, the upload to the OCR endpoint, the POST of the form and
  the sleep between two attempts. \<open>save_captcha_image\<close> catches every exception of its
  own and returns nothing, so it leaves no trace in the model.
\<close>

datatype event = GetPage | GetCaptcha pystr | Ocr "nat list" | Post pystr form_data | Sleep

definition marker_rejected :: pystr where
  "marker_rejected = ustr ''codul de verificare a fost copiat incorect''"

text \<open>
  One attempt gives the requests it made, the value of the variable \<open>result_text\<close> after
  it, and the exception it raised (\<open>None\<close>: it reached \<open>break\<close>).
\<close>

type_synonym attempt_result = "event list \<times> result_page \<times> exn option"

text \<open>Lines 315-339: step 4, the submission.\<close>

definition submit_form ::
  "unicode \<Rightarrow> result_page \<Rightarrow> attempt_io \<Rightarrow> pystr \<Rightarrow> form_data \<Rightarrow> attempt_result" where
  "submit_form U rt io post_url fd =
    (case io_post io of
      HttpRaises e \<Rightarrow> ([Post post_url fd], rt, Some e)
    | HttpResponse status body \<Rightarrow>
        if status \<noteq> 200 then
          ([Post post_url fd], rt,
           Some (Exn UpdateFailed (ustr ''POST request failed: HTTP '' @ str_nat status) None))
        else
          (case body of
            Inl e \<Rightarrow> ([Post post_url fd], rt, Some e)
          | Inr page \<Rightarrow>
              if contains marker_rejected (uc_lower U (result_text page)) then
                ([Post post_url fd], page,
                 Some (Exn UpdateFailed (ustr ''CAPTCHA validation failed'') None))
              else ([Post post_url fd], page, None)))"

text \<open>Lines 270-313: steps 2 and 3, the OCR call, the check of its answer, the form.\<close>

definition solve_and_build ::
  "unicode \<Rightarrow> pystr \<Rightarrow> result_page \<Rightarrow> attempt_io \<Rightarrow> soup \<Rightarrow> nat list \<Rightarrow> attempt_result" where
  "solve_and_build U vin rt io sp captcha_content =
    (case solve_captcha_with_local_api U (io_ocr io) of
      Inl err \<Rightarrow>
        if exn_class err = OCRAPIError then
          ([Ocr captcha_content], rt,
           Some (Exn UpdateFailed (ustr ''OCR API failed: '' @ exn_msg err) None))
        else ([Ocr captcha_content], rt, Some err)
    | Inr captcha_text \<Rightarrow>
        if captcha_text = [] then
          ([Ocr captcha_content], rt,
           Some (Exn UpdateFailed (ustr ''CAPTCHA OCR returned empty result'') None))
        else
          let clean_captcha = re_sub_nondigit U captcha_text in
          if \<not> fullmatch_digits U 4 4 clean_captcha then
            ([Ocr captcha_content], rt,
             Some (Exn UpdateFailed
               (ustr ''Invalid CAPTCHA output after cleaning: '' @ clean_captcha) None))
          else
            (case build_form_data_from_page U sp vin clean_captcha of
              Inl e \<Rightarrow> ([Ocr captcha_content], rt, Some e)
            | Inr (post_url, fd) \<Rightarrow>
                (case submit_form U rt io post_url fd of
                  (tr, rt', r) \<Rightarrow> (Ocr captcha_content # tr, rt', r))))"

text \<open>Lines 246-265: the CAPTCHA image of the page and its download.\<close>

definition captcha_url_of :: "pystr \<Rightarrow> pystr" where
  "captcha_url_of captcha_src =
    (if startswith captcha_src (ustr ''http'') then captcha_src
     else ustr ''https://prog.rarom.ro/rarpol/'' @ lstrip_chars [47] captcha_src)"

definition download_captcha ::
  "unicode \<Rightarrow> pystr \<Rightarrow> result_page \<Rightarrow> attempt_io \<Rightarrow> soup \<Rightarrow> attempt_result" where
  "download_captcha U vin rt io sp =
    (case soup_imgVerf sp of
      None \<Rightarrow>
        ([], rt, Some (Exn UpdateFailed (ustr ''CAPTCHA image not found in page'') None))
    | Some None \<Rightarrow>
        ([], rt, Some (Exn UpdateFailed (ustr ''CAPTCHA image not found in page'') None))
    | Some (Some captcha_src) \<Rightarrow>
        if captcha_src = [] then
          ([], rt, Some (Exn UpdateFailed (ustr ''CAPTCHA image not found in page'') None))
        else
          let captcha_url = captcha_url_of captcha_src in
          (case io_captcha io of
            HttpRaises e \<Rightarrow> ([GetCaptcha captcha_url], rt, Some e)
          | HttpResponse status body \<Rightarrow>
              if status \<noteq> 200 then
                ([GetCaptcha captcha_url], rt,
                 Some (Exn UpdateFailed
                   (ustr ''CAPTCHA download failed: HTTP '' @ str_nat status) None))
              else
                (case body of
                  Inl e \<Rightarrow> ([GetCaptcha captcha_url], rt, Some e)
                | Inr captcha_content \<Rightarrow>
                    (case solve_and_build U vin rt io sp captcha_content of
                      (tr, rt', r) \<Rightarrow> (GetCaptcha captcha_url # tr, rt', r)))))"

text \<open>Lines 236-339: the body of the \<open>try\<close> of one attempt.\<close>

definition attempt_body ::
  "unicode \<Rightarrow> pystr \<Rightarrow> result_page \<Rightarrow> attempt_io \<Rightarrow> attempt_result" where
  "attempt_body U vin rt io =
    (case io_landing io of
      HttpRaises e \<Rightarrow> ([GetPage], rt, Some e)
    | HttpResponse status body \<Rightarrow>
        if status \<noteq> 200 then
          ([GetPage], rt,
           Some (Exn UpdateFailed (ustr ''Initial request failed: HTTP '' @ str_nat status) None))
        else
          (case body of
            Inl e \<Rightarrow> ([GetPage], rt, Some e)
          | Inr sp \<Rightarrow>
              (case download_captcha U vin rt io sp of
                (tr, rt', r) \<Rightarrow> (GetPage # tr, rt', r))))"

text \<open>
  Lines 234-347: the loop \<open>for attempt in range(1, 4)\<close> over the attempt numbers left,
  with the handler \<open>except UpdateFailed\<close>. An exception of another class leaves the loop.
  \<open>w attempt\<close> is what the world answers during that attempt.
\<close>

fun retry_loop ::
  "unicode \<Rightarrow> pystr \<Rightarrow> (nat \<Rightarrow> attempt_io) \<Rightarrow> result_page \<Rightarrow> nat list
    \<Rightarrow> event list \<times> (exn + result_page)" where
  "retry_loop U vin w rt [] = ([], Inr rt)"
| "retry_loop U vin w rt (attempt # rest) =
    (case attempt_body U vin rt (w attempt) of
      (tr, rt', None) \<Rightarrow> (tr, Inr rt')
    | (tr, rt', Some e) \<Rightarrow>
        if exn_class e = UpdateFailed then
          (if attempt = 3 then
             (tr, Inl (Exn UpdateFailed (ustr ''Failed after 3 attempts: '' @ exn_msg e) None))
           else
             (case retry_loop U vin w rt' rest of (tr', r) \<Rightarrow> (tr @ Sleep # tr', r)))
        else (tr, Inl e))"

record itp_record =
  itp_vin :: pystr
  itp_status :: pystr
  itp_expiration_date :: pystr
  itp_last_checked :: pystr

text \<open>\<open>result_text = ""\<close> before the loop, and its parse.\<close>

definition empty_page :: result_page where
  "empty_page = \<lparr> result_text = [], result_div = None, old_format_node = NoNode \<rparr>"

text \<open>
  \<open>fetch_itp\<close>: the requests made, and the record returned or the exception raised.
  \<open>now\<close> is \<open>datetime.now().strftime(...)\<close>. The outer handler (lines 398-400,
  \<open>except Exception\<close>) wraps every exception that derives from \<open>Exception\<close>.
\<close>

definition fetch_itp ::
  "unicode \<Rightarrow> (nat \<Rightarrow> attempt_io) \<Rightarrow> pystr \<Rightarrow> pystr \<Rightarrow> event list \<times> (exn + itp_record)" where
  "fetch_itp U w now vin =
    (case retry_loop U vin w empty_page [1, 2, 3] of
      (tr, Inl err) \<Rightarrow>
        if is_exception (exn_class err)
        then (tr, Inl (Exn UpdateFailed (ustr ''ITP check failed: '' @ exn_msg err) (Some err)))
        else (tr, Inl err)
    | (tr, Inr page) \<Rightarrow>
        (case parse_result U page of
          (status, expiration_date) \<Rightarrow>
            (tr, Inr \<lparr> itp_vin = vin, itp_status = status,
                       itp_expiration_date = expiration_date, itp_last_checked = now \<rparr>)))"

section \<open>Names and inputs used by the statements\<close>

text \<open>
  The key that lines 195-203 assign the CAPTCHA code to, as a function of the form data
  at that point.
\<close>

definition captcha_field :: "form_data \<Rightarrow> pystr" where
  "captcha_field fd =
    (if has_key (ustr ''verif_cod'') fd then ustr ''verif_cod''
     else if has_key (ustr ''antirobot'') fd then ustr ''antirobot''
     else ustr ''verif_cod'')"

text \<open>A landing page with one form named \<open>frm\<close>, and two lists of inputs for it.\<close>

definition demo_page :: "pystr \<Rightarrow> input_el list \<Rightarrow> soup" where
  "demo_page action inputs =
    \<lparr>soup_forms = [\<lparr>form_name = Some (ustr ''frm''), form_action = Some action,
        form_inputs = inputs\<rparr>],
      soup_imgVerf = Some (Some (ustr ''/captcha.asp''))\<rparr>"

definition submit_inputs :: "input_el list" where
  "submit_inputs =
    [\<lparr>input_name = Some (ustr ''lang''), input_value = Some (ustr ''ro'')\<rparr>,
     \<lparr>input_name = None, input_value = Some (ustr ''x'')\<rparr>,
     \<lparr>input_name = Some (ustr ''trimite''), input_value = None\<rparr>]"

definition both_captcha_inputs :: "input_el list" where
  "both_captcha_inputs =
    [\<lparr>input_name = Some (ustr ''verif_cod''), input_value = Some []\<rparr>,
     \<lparr>input_name = Some (ustr ''antirobot''), input_value = Some (ustr ''1234'')\<rparr>]"

text \<open>
  A result page without the container \<open>rezbgcolor\<close> and without the old-format node, so
  that the parser reads the text of the response; and a response text with the no-record
  phrase, its first letter in upper case.
\<close>

definition text_page :: "pystr \<Rightarrow> result_page" where
  "text_page t = \<lparr> result_text = t, result_div = None, old_format_node = NoNode \<rparr>"

definition no_record_text :: pystr where
  "no_record_text =
    ustr ''VIN: Nu a fost g'' @ [259] @ ustr ''sit'' @ [259] @ ustr '' nicio '' @ [238]
      @ ustr ''nregistrare!''"

text \<open>
  Worlds for running the orchestrator: what the network answers in each attempt. In an
  attempt of \<open>attempt_with\<close> the landing page and the CAPTCHA image arrive, the OCR endpoint
  answers with the given text and the portal answers the POST as given. In \<open>good_world\<close>
  the first attempt succeeds; in \<open>failing_world\<close> the OCR answer of attempt 1 is too short,
  the portal rejects the code of attempt 2 and answers attempt 3 with status 500; in
  \<open>cancelled_world\<close> the portal rejects the code twice and the task is cancelled while
  attempt 3 loads the landing page.
\<close>

definition attempt_with :: "pystr \<Rightarrow> result_page http \<Rightarrow> attempt_io" where
  "attempt_with ocr_text post =
    \<lparr> io_landing = HttpResponse 200 (Inr (demo_page (ustr ''rarpol.asp'') submit_inputs)),
      io_captcha = HttpResponse 200 (Inr [137, 80, 78, 71]),
      io_ocr = OcrResponse 200 (Inr []) (Inr (Some ocr_text)),
      io_post = post \<rparr>"

definition good_world :: "nat \<Rightarrow> attempt_io" where
  "good_world attempt =
    attempt_with (ustr ''1234'')
      (HttpResponse 200 (Inr (text_page (marker_valid_until @ ustr '' 5-mar-2026''))))"

definition rejected_page :: result_page where
  "rejected_page = text_page (ustr ''Codul de verificare a fost copiat incorect!'')"

definition failing_world :: "nat \<Rightarrow> attempt_io" where
  "failing_world attempt =
    (if attempt = 1 then attempt_with (ustr ''12'') (HttpResponse 200 (Inr rejected_page))
     else if attempt = 2 then attempt_with (ustr ''1234'') (HttpResponse 200 (Inr rejected_page))
     else attempt_with (ustr ''5678'') (HttpResponse 500 (Inr rejected_page)))"

definition cancelled_world :: "nat \<Rightarrow> attempt_io" where
  "cancelled_world attempt =
    (if attempt = 3
     then (attempt_with (ustr ''1234'') (HttpResponse 200 (Inr rejected_page)))
       \<lparr> io_landing := HttpRaises (Exn CancelledError [] None) \<rparr>
     else attempt_with (ustr ''1234'') (HttpResponse 200 (Inr rejected_page)))"

text \<open>The VIN, the clock and the requests of those runs.\<close>

definition demo_vin :: pystr where
  "demo_vin = ustr ''wvw1''"

definition demo_now :: pystr where
  "demo_now = ustr ''2025-01-01 00:00:00''"

definition demo_form :: "pystr \<Rightarrow> form_data" where
  "demo_form code =
    [(ustr ''lang'', ustr ''ro''), (ustr ''trimite'', ustr ''Caut'' @ [259]),
     (ustr ''nr_id'', ustr ''WVW1''), (ustr ''verif_cod'', code)]"

definition demo_requests :: "event list" where
  "demo_requests =
    [GetPage, GetCaptcha (ustr ''https://prog.rarom.ro/rarpol/captcha.asp''),
     Ocr [137, 80, 78, 71]]"

definition demo_post :: "pystr \<Rightarrow> event" where
  "demo_post code = Post (ustr ''https://prog.rarom.ro/rarpol/rarpol.asp'') (demo_form code)"

section \<open>Properties of the OCR client\<close>

lemma filter_dropWhile_disjoint:
  "(\<And>c. Q c \<Longrightarrow> \<not> P c) \<Longrightarrow> filter P (dropWhile Q xs) = filter P xs"
  by (induction xs) auto

lemma filter_py_strip:
  assumes "\<And>c. uc_space U c \<Longrightarrow> \<not> uc_digit U c"
  shows "filter (uc_digit U) (py_strip U s) = filter (uc_digit U) s"
proof -
  have "filter (uc_digit U) (py_strip U s)
      = rev (filter (uc_digit U) (dropWhile (uc_space U) (rev (dropWhile (uc_space U) s))))"
    by (simp add: py_strip_def rev_filter)
  also have "\<dots> = rev (filter (uc_digit U) (rev (dropWhile (uc_space U) s)))"
    using assms by (simp add: filter_dropWhile_disjoint)
  also have "\<dots> = filter (uc_digit U) (dropWhile (uc_space U) s)"
    by (simp add: rev_filter)
  also have "\<dots> = filter (uc_digit U) s"
    using assms by (simp add: filter_dropWhile_disjoint)
  finally show ?thesis .
qed


lemma py_strip_Nil [simp]: "py_strip U [] = []"
  by (simp add: py_strip_def)

lemma list_all_re_sub_nondigit: "list_all (uc_digit U) (re_sub_nondigit U s)"
  by (simp add: re_sub_nondigit_def list_all_iff)


lemma solve_ok_digits:
  assumes "solve_captcha_with_local_api U r = Inr s"
  shows "1 \<le> length s \<and> length s \<le> 4 \<and> list_all (uc_digit U) s \<and> re_sub_nondigit U s = s"
proof -
  from assms have "ocr_post U r = Inr s"
    by (auto simp: solve_captcha_with_local_api_def ocr_inner_try_def split: sum.splits if_splits)
  then obtain d where d: "fullmatch_digits U 1 6 d"
      and s: "s = (if length d \<ge> 4 then take 4 d else d)"
    by (auto simp: ocr_post_def Let_def split: ocr_response.splits sum.splits if_splits)
  from d have all: "list_all (uc_digit U) d" and len: "1 \<le> length d"
    by (simp_all add: fullmatch_digits_def)
  have digits: "list_all (uc_digit U) s"
    using all s by (auto simp: list_all_iff dest: in_set_takeD)
  moreover have "1 \<le> length s \<and> length s \<le> 4"
    using len s by auto
  moreover have "re_sub_nondigit U s = s"
    using digits by (simp add: re_sub_nondigit_def list_all_iff)
  ultimately show ?thesis by simp
qed


lemma solve_in_range:
  assumes wf: "\<forall>c. uc_space U c \<longrightarrow> \<not> uc_digit U c"
    and lo: "4 \<le> length (re_sub_nondigit U t)" and hi: "length (re_sub_nondigit U t) \<le> 6"
  shows "solve_captcha_with_local_api U (OcrResponse 200 tb (Inr (Some t)))
     = Inr (take 4 (re_sub_nondigit U t))"
proof -
  have eq: "re_sub_nondigit U (py_strip U t) = re_sub_nondigit U t"
    using wf by (simp add: re_sub_nondigit_def filter_py_strip)
  have ne: "py_strip U t \<noteq> []"
  proof
    assume "py_strip U t = []"
    with eq have "re_sub_nondigit U t = []" by (simp add: re_sub_nondigit_def)
    with lo show False by simp
  qed
  have fm: "fullmatch_digits U 1 6 (re_sub_nondigit U t)"
    using lo hi by (simp add: fullmatch_digits_def list_all_re_sub_nondigit)
  show ?thesis
    using ne fm lo
    by (simp add: solve_captcha_with_local_api_def ocr_inner_try_def ocr_post_def eq)
qed

lemma solve_too_long:
  assumes wf: "\<forall>c. uc_space U c \<longrightarrow> \<not> uc_digit U c"
    and lo: "6 < length (re_sub_nondigit U t)"
  shows "raises_class OCRAPIError
    (solve_captcha_with_local_api U (OcrResponse 200 tb (Inr (Some t))))"
proof -
  have eq: "re_sub_nondigit U (py_strip U t) = re_sub_nondigit U t"
    using wf by (simp add: re_sub_nondigit_def filter_py_strip)
  have fm: "\<not> fullmatch_digits U 1 6 (re_sub_nondigit U t)"
    using lo by (simp add: fullmatch_digits_def)
  show ?thesis
    using fm
    by (simp add: solve_captcha_with_local_api_def ocr_inner_try_def ocr_post_def eq Let_def
        raises_class_def)
qed

lemma py_tables_space_not_digit: "\<forall>c. uc_space py_tables c \<longrightarrow> \<not> uc_digit py_tables c"
  by (auto simp: py_tables_def)

lemmas ocr_eval = solve_captcha_with_local_api_def ocr_inner_try_def ocr_post_def py_strip_def
  re_sub_nondigit_def fullmatch_digits_def py_tables_def ustr_def raises_class_def

text \<open>
  Claim C10. Whenever the OCR client returns (does not raise), the value it returns is a
  non-empty string of at most 4 characters, all of them digits: the 1 to 6 digits that
  pass the format check are cut to the first 4, so 5 or 6 digits are never returned.
\<close>

theorem ocr_result_has_one_to_four_digits:
  "solve_captcha_with_local_api U r = Inr s \<Longrightarrow>
     1 \<le> length s \<and> length s \<le> 4 \<and> list_all (uc_digit U) s"
  using solve_ok_digits by blast

theorem ocr_result_has_one_to_four_digits_witness:
  "solve_captcha_with_local_api py_tables
       (OcrResponse 200 (Inr []) (Inr (Some (ustr '' 12a345 '')))) = Inr (ustr ''1234'')
   \<and> 1 \<le> length (ustr ''1234'') \<and> length (ustr ''1234'') \<le> 4
   \<and> list_all (uc_digit py_tables) (ustr ''1234'')"
proof -
  have run: "solve_captcha_with_local_api py_tables
       (OcrResponse 200 (Inr []) (Inr (Some (ustr '' 12a345 '')))) = Inr (ustr ''1234'')"
    by (simp add: ocr_eval)
  from run ocr_result_has_one_to_four_digits [OF run] show ?thesis
    by (rule conjI)
qed

text \<open>
  Claim C3, as stated, fails: a text field with seven digits strips to 4 or more digits,
  and the client raises instead of returning the first 4, because the stripped string
  must match \<open>\d{1,6}\<close> before it is cut.
\<close>

theorem ocr_seven_digits_counterexample:
  "4 \<le> length (re_sub_nondigit py_tables (ustr ''1234567''))
   \<and> solve_captcha_with_local_api py_tables
       (OcrResponse 200 (Inr []) (Inr (Some (ustr ''1234567''))))
     = Inl (Exn OCRAPIError (ustr ''OCR processing failed'')
         (Some (Exn OCRAPIError
           (ustr ''Invalid CAPTCHA format from OCR API: raw='' @ [39] @ ustr ''1234567'' @ [39]
             @ ustr '', digits='' @ [39] @ ustr ''1234567'' @ [39]) None)))"
  by (simp add: ocr_eval)

text \<open>
  Claim C3, amended. For tables in which no whitespace character is a digit (true of
  Unicode): when the text field of a 200 response, stripped of all non-digit characters,
  has 4 to 6 digits, the OCR client returns exactly the first 4 of them; when it has more
  than 6, the client raises \<open>OCRAPIError\<close>.
\<close>

theorem ocr_first_four_of_four_to_six:
  assumes "\<forall>c. uc_space U c \<longrightarrow> \<not> uc_digit U c"
  shows "(4 \<le> length (re_sub_nondigit U t) \<and> length (re_sub_nondigit U t) \<le> 6 \<longrightarrow>
            solve_captcha_with_local_api U (OcrResponse 200 tb (Inr (Some t)))
              = Inr (take 4 (re_sub_nondigit U t)))
       \<and> (6 < length (re_sub_nondigit U t) \<longrightarrow>
            raises_class OCRAPIError
              (solve_captcha_with_local_api U (OcrResponse 200 tb (Inr (Some t)))))"
  using assms solve_in_range solve_too_long by blast

theorem ocr_first_four_of_four_to_six_witness:
  "solve_captcha_with_local_api py_tables
       (OcrResponse 200 (Inr []) (Inr (Some (ustr '' 12a345 ''))))
     = Inr (ustr ''1234'')
   \<and> raises_class OCRAPIError (solve_captcha_with_local_api py_tables
       (OcrResponse 200 (Inr []) (Inr (Some (ustr ''1234567'')))))"
proof -
  have five: "re_sub_nondigit py_tables (ustr '' 12a345 '') = ustr ''12345''"
    and seven: "re_sub_nondigit py_tables (ustr ''1234567'') = ustr ''1234567''"
    by (simp_all add: re_sub_nondigit_def py_tables_def ustr_def)
  from ocr_first_four_of_four_to_six [OF py_tables_space_not_digit, of "ustr '' 12a345 ''" "Inr []"]
  have a: "solve_captcha_with_local_api py_tables
       (OcrResponse 200 (Inr []) (Inr (Some (ustr '' 12a345 '')))) = Inr (ustr ''1234'')"
    by (simp add: five) (simp add: ustr_def)
  from ocr_first_four_of_four_to_six [OF py_tables_space_not_digit, of "ustr ''1234567''" "Inr []"]
  have b: "raises_class OCRAPIError (solve_captcha_with_local_api py_tables
       (OcrResponse 200 (Inr []) (Inr (Some (ustr ''1234567'')))))"
    by (simp add: seven) (simp add: ustr_def)
  from a b show ?thesis by (rule conjI)
qed




section \<open>Properties of the form extractor\<close>

lemma key_names_distinct:
  "ustr ''nr_id'' \<noteq> ustr ''verif_cod''" "ustr ''nr_id'' \<noteq> ustr ''antirobot''"
  "ustr ''nr_id'' \<noteq> ustr ''trimite''" "ustr ''verif_cod'' \<noteq> ustr ''antirobot''"
  "ustr ''verif_cod'' \<noteq> ustr ''trimite''" "ustr ''antirobot'' \<noteq> ustr ''trimite''"
  by (simp_all add: ustr_def)

lemma map_of_set_vin:
  "map_of (set_vin U vin fd) = (map_of fd)(ustr ''nr_id'' \<mapsto> uc_upper U vin)"
  by (simp add: set_vin_def update_conv')

lemma map_of_set_captcha:
  "map_of (set_captcha code fd) = (map_of fd)(captcha_field fd \<mapsto> code)"
  by (simp add: set_captcha_def captcha_field_def update_conv')

lemma map_of_set_submit:
  "map_of (set_submit fd) =
    (if map_of fd (ustr ''trimite'') = Some [] then (map_of fd)(ustr ''trimite'' \<mapsto> submit_label)
     else map_of fd)"
  by (auto simp: set_submit_def update_conv' split: option.splits)

lemma captcha_field_cases:
  "captcha_field fd = ustr ''verif_cod'' \<or> captcha_field fd = ustr ''antirobot''"
  by (simp add: captcha_field_def)

lemma captcha_field_set_vin: "captcha_field (set_vin U vin fd) = captcha_field fd"
  using key_names_distinct
  by (simp add: captcha_field_def has_key_def map_of_set_vin)

lemma build_Inr:
  assumes "build_form_data_from_page U sp vin code = Inr (post_url, fd)"
  obtains form where "find_form sp = Some form"
    and "post_url = resolve_action (action_of form)"
    and "fd = set_submit (set_captcha code (set_vin U vin (extract_fields (form_inputs form) [])))"
  using assms by (auto simp: build_form_data_from_page_def split: option.splits)

lemma map_of_built:
  "map_of (set_submit (set_captcha code (set_vin U vin ex))) k =
    (if k = ustr ''trimite'' \<and> map_of ex k = Some [] then Some submit_label
     else if k = captcha_field ex then Some code
     else if k = ustr ''nr_id'' then Some (uc_upper U vin)
     else map_of ex k)"
  using key_names_distinct captcha_field_cases [of ex]
  by (auto simp: map_of_set_submit map_of_set_captcha map_of_set_vin captcha_field_set_vin)

lemma contains_single: "contains [d] s = (d \<in> set s)"
  by (induction s) (auto simp: startswith_def)

lemma split_once_single:
  "split_once [d] s = (if d \<in> set s
     then Some (takeWhile (\<lambda>c. c \<noteq> d) s, tl (dropWhile (\<lambda>c. c \<noteq> d) s)) else None)"
  by (induction s) (auto simp: startswith_def)

lemma takeWhile_absent: "d \<notin> set s \<Longrightarrow> takeWhile (\<lambda>c. c \<noteq> d) s = s"
  by (induction s) auto

lemma base_root_eval: "base_root = ustr ''https://prog.rarom.ro/rarpol''"
  by (simp add: base_root_def rsplit_once_def BASE_URL_def ustr_def startswith_def)

lemma resolve_action_rules:
  "resolve_action a =
    (if startswith a (ustr ''http'') then a
     else if takeWhile (\<lambda>x. x \<noteq> 35) a = [] then BASE_URL
     else if startswith (takeWhile (\<lambda>x. x \<noteq> 35) a) [47]
       then ustr ''https://prog.rarom.ro'' @ takeWhile (\<lambda>x. x \<noteq> 35) a
     else ustr ''https://prog.rarom.ro/rarpol/'' @ takeWhile (\<lambda>x. x \<noteq> 35) a)"
proof -
  have clean: "(if contains [35] a
          then (case split_once [35] a of Some (x, y) \<Rightarrow> x | None \<Rightarrow> a) else a)
      = takeWhile (\<lambda>x. x \<noteq> 35) a"
  proof (cases "35 \<in> set a")
    case True
    then show ?thesis by (simp add: contains_single split_once_single)
  next
    case False
    then show ?thesis by (simp add: contains_single takeWhile_absent)
  qed
  have slash: "ustr ''https://prog.rarom.ro/rarpol'' @ [47] @ c
      = ustr ''https://prog.rarom.ro/rarpol/'' @ c" for c
    by (simp add: ustr_def)
  show ?thesis
    unfolding resolve_action_def clean Let_def base_root_eval slash by simp
qed

lemma distinct_extract_fields:
  "distinct (map fst fd) \<Longrightarrow> distinct (map fst (extract_fields inps fd))"
  by (induction inps arbitrary: fd) (auto simp: distinct_update split: option.splits)

lemma distinct_built:
  "distinct (map fst ex) \<Longrightarrow>
    distinct (map fst (set_submit (set_captcha code (set_vin U vin ex))))"
  by (auto simp: set_submit_def set_captcha_def set_vin_def distinct_update split: option.splits)

lemmas form_eval = build_form_data_from_page_def find_form_def action_of_def demo_page_def
  submit_inputs_def both_captcha_inputs_def set_submit_def set_captcha_def set_vin_def
  has_key_def submit_label_def py_tables_def ustr_def ascii_upper_def captcha_field_def

lemma submit_build:
  "build_form_data_from_page py_tables (demo_page (ustr ''rarpol.asp#top'') submit_inputs)
      (ustr ''wvw1'') (ustr ''1234'')
    = Inr (ustr ''https://prog.rarom.ro/rarpol/rarpol.asp'',
        [(ustr ''lang'', ustr ''ro''), (ustr ''trimite'', ustr ''Caut'' @ [259]),
         (ustr ''nr_id'', ustr ''WVW1''), (ustr ''verif_cod'', ustr ''1234'')])"
  by (simp add: form_eval resolve_action_rules startswith_def)

lemma both_captcha_build:
  "build_form_data_from_page py_tables (demo_page (ustr ''/rarpol/rarpol.asp'') both_captcha_inputs)
      (ustr ''wvw1'') (ustr ''1234'')
    = Inr (ustr ''https://prog.rarom.ro/rarpol/rarpol.asp'',
        [(ustr ''verif_cod'', ustr ''1234''), (ustr ''antirobot'', ustr ''1234''),
         (ustr ''nr_id'', ustr ''WVW1'')])"
  by (simp add: form_eval resolve_action_rules startswith_def)

text \<open>
  Claim C5, as stated, fails in its last rule: an action that starts with \<open>http\<close> is used
  as it is (line 162), before any fragment is looked for, so its \<open>#fragment\<close> is part of
  the POST URL.
\<close>

theorem http_action_keeps_fragment_counterexample:
  "build_form_data_from_page py_tables
       (demo_page (ustr ''http://example.org/q.asp#frag'') both_captcha_inputs)
       (ustr ''wvw1'') (ustr ''1234'')
     = Inr (ustr ''http://example.org/q.asp#frag'',
         [(ustr ''verif_cod'', ustr ''1234''), (ustr ''antirobot'', ustr ''1234''),
          (ustr ''nr_id'', ustr ''WVW1'')])
   \<and> 35 \<in> set (ustr ''http://example.org/q.asp#frag'')"
  by (simp add: form_eval resolve_action_rules startswith_def)

text \<open>
  Claim C5, amended. The form that is built from is the first form named \<open>frm\<close>, or the
  first form when none has that name. When it has no action attribute, or an empty one,
  the POST URL is the landing-page URL. An action that starts with \<open>http\<close> is used as it
  is, a fragment included. Any other action is cut at its first \<open>#\<close>; what is left is
  joined to the portal host when it starts with \<open>/\<close>, joined to the directory of the
  landing URL when it is another non-empty path, and replaced by the landing-page URL
  when nothing is left.
\<close>

theorem post_url_by_action:
  assumes "build_form_data_from_page U sp vin code = Inr (post_url, fd)"
  shows "\<exists>form.
      (find (\<lambda>f. form_name f = Some (ustr ''frm'')) (soup_forms sp) = Some form
        \<or> find (\<lambda>f. form_name f = Some (ustr ''frm'')) (soup_forms sp) = None
            \<and> (\<exists>forms. soup_forms sp = form # forms))
    \<and> (form_action form = None \<longrightarrow> post_url = BASE_URL)
    \<and> (\<forall>action. form_action form = Some action \<longrightarrow>
         (let stripped = takeWhile (\<lambda>x. x \<noteq> 35) action in
           (action = [] \<longrightarrow> post_url = BASE_URL)
           \<and> (startswith action (ustr ''http'') \<longrightarrow> post_url = action)
           \<and> (\<not> startswith action (ustr ''http'') \<and> startswith stripped [47] \<longrightarrow>
                 post_url = ustr ''https://prog.rarom.ro'' @ stripped)
           \<and> (\<not> startswith action (ustr ''http'') \<and> stripped \<noteq> []
                 \<and> \<not> startswith stripped [47] \<longrightarrow>
                 post_url = ustr ''https://prog.rarom.ro/rarpol/'' @ stripped)
           \<and> (\<not> startswith action (ustr ''http'') \<and> stripped = [] \<longrightarrow>
                 post_url = BASE_URL)))"
proof -
  from assms obtain form where f: "find_form sp = Some form"
    and url: "post_url = resolve_action (action_of form)"
    by (rule build_Inr)
  from f have which:
    "find (\<lambda>f. form_name f = Some (ustr ''frm'')) (soup_forms sp) = Some form
      \<or> find (\<lambda>f. form_name f = Some (ustr ''frm'')) (soup_forms sp) = None
          \<and> (\<exists>forms. soup_forms sp = form # forms)"
    by (auto simp: find_form_def split: option.splits list.splits)
  have slash: "startswith s [47] \<Longrightarrow> s \<noteq> []" for s :: pystr
    by (auto simp: startswith_def)
  have nohttp: "\<not> startswith [] (ustr ''http'')"
    by (simp add: startswith_def ustr_def)
  have none: "form_action form = None \<longrightarrow> post_url = BASE_URL"
    using nohttp by (simp add: url action_of_def resolve_action_rules)
  have some: "\<forall>action. form_action form = Some action \<longrightarrow>
         (let stripped = takeWhile (\<lambda>x. x \<noteq> 35) action in
           (action = [] \<longrightarrow> post_url = BASE_URL)
           \<and> (startswith action (ustr ''http'') \<longrightarrow> post_url = action)
           \<and> (\<not> startswith action (ustr ''http'') \<and> startswith stripped [47] \<longrightarrow>
                 post_url = ustr ''https://prog.rarom.ro'' @ stripped)
           \<and> (\<not> startswith action (ustr ''http'') \<and> stripped \<noteq> []
                 \<and> \<not> startswith stripped [47] \<longrightarrow>
                 post_url = ustr ''https://prog.rarom.ro/rarpol/'' @ stripped)
           \<and> (\<not> startswith action (ustr ''http'') \<and> stripped = [] \<longrightarrow>
                 post_url = BASE_URL))"
    using slash nohttp by (auto simp: url action_of_def resolve_action_rules Let_def)
  show ?thesis
    by (rule exI [of _ form]) (intro conjI which none some)
qed

theorem post_url_by_action_witness:
  "build_form_data_from_page py_tables (demo_page (ustr ''rarpol.asp#top'') submit_inputs)
      (ustr ''wvw1'') (ustr ''1234'')
    = Inr (ustr ''https://prog.rarom.ro/rarpol/rarpol.asp'',
        [(ustr ''lang'', ustr ''ro''), (ustr ''trimite'', ustr ''Caut'' @ [259]),
         (ustr ''nr_id'', ustr ''WVW1''), (ustr ''verif_cod'', ustr ''1234'')])
   \<and> ustr ''https://prog.rarom.ro/rarpol/rarpol.asp''
     = ustr ''https://prog.rarom.ro/rarpol/'' @ takeWhile (\<lambda>x. x \<noteq> 35) (ustr ''rarpol.asp#top'')"
proof -
  from post_url_by_action [OF submit_build]
  obtain form
    where f: "find (\<lambda>f. form_name f = Some (ustr ''frm''))
          (soup_forms (demo_page (ustr ''rarpol.asp#top'') submit_inputs)) = Some form
        \<or> find (\<lambda>f. form_name f = Some (ustr ''frm''))
            (soup_forms (demo_page (ustr ''rarpol.asp#top'') submit_inputs)) = None
          \<and> (\<exists>forms. soup_forms (demo_page (ustr ''rarpol.asp#top'') submit_inputs)
                = form # forms)"
    and r: "\<And>action. form_action form = Some action \<Longrightarrow>
       \<not> startswith action (ustr ''http'') \<Longrightarrow> takeWhile (\<lambda>x. x \<noteq> 35) action \<noteq> [] \<Longrightarrow>
       \<not> startswith (takeWhile (\<lambda>x. x \<noteq> 35) action) [47] \<Longrightarrow>
        ustr ''https://prog.rarom.ro/rarpol/rarpol.asp''
          = ustr ''https://prog.rarom.ro/rarpol/'' @ takeWhile (\<lambda>x. x \<noteq> 35) action"
    by (auto simp: Let_def)
  from f have a: "form_action form = Some (ustr ''rarpol.asp#top'')"
    by (auto simp: demo_page_def)
  have "ustr ''https://prog.rarom.ro/rarpol/rarpol.asp''
     = ustr ''https://prog.rarom.ro/rarpol/'' @ takeWhile (\<lambda>x. x \<noteq> 35) (ustr ''rarpol.asp#top'')"
    using a by (rule r) (simp_all add: startswith_def ustr_def)
  with submit_build show ?thesis by (rule conjI)
qed

text \<open>
  Claim C4, as stated, fails: an input named \<open>trimite\<close> with an empty value is neither the
  VIN field nor a CAPTCHA field, and the built form data gives it the label of the submit
  button (lines 205-207) instead of its extracted value.
\<close>

theorem submit_button_counterexample:
  "build_form_data_from_page py_tables (demo_page (ustr ''rarpol.asp#top'') submit_inputs)
      (ustr ''wvw1'') (ustr ''1234'')
    = Inr (ustr ''https://prog.rarom.ro/rarpol/rarpol.asp'',
        [(ustr ''lang'', ustr ''ro''), (ustr ''trimite'', ustr ''Caut'' @ [259]),
         (ustr ''nr_id'', ustr ''WVW1''), (ustr ''verif_cod'', ustr ''1234'')])
   \<and> extract_fields submit_inputs [] = [(ustr ''lang'', ustr ''ro''), (ustr ''trimite'', [])]
   \<and> ustr ''trimite'' \<noteq> ustr ''nr_id'' \<and> ustr ''trimite'' \<noteq> ustr ''verif_cod''
   \<and> ustr ''trimite'' \<noteq> ustr ''antirobot''
   \<and> ustr ''Caut'' @ [259] \<noteq> []"
  by (simp add: form_eval resolve_action_rules startswith_def)

text \<open>
  Claim C4, amended. Every extracted field other than \<open>nr_id\<close>, the CAPTCHA field that is
  written, and a \<open>trimite\<close> field whose value is empty keeps its extracted value in the
  built form data; an empty \<open>trimite\<close> gets the submit label.
\<close>

theorem other_fields_unchanged:
  assumes "build_form_data_from_page U sp vin code = Inr (post_url, fd)"
  shows "\<exists>form. find_form sp = Some form \<and>
    (let ex = extract_fields (form_inputs form) [] in
      (\<forall>k v. map_of ex k = Some v \<and> k \<noteq> ustr ''nr_id'' \<and> k \<noteq> captcha_field ex
          \<and> \<not> (k = ustr ''trimite'' \<and> v = []) \<longrightarrow> map_of fd k = Some v)
      \<and> (map_of ex (ustr ''trimite'') = Some [] \<longrightarrow>
           map_of fd (ustr ''trimite'') = Some submit_label))"
proof -
  from assms obtain form where f: "find_form sp = Some form"
    and fd: "fd = set_submit (set_captcha code (set_vin U vin
        (extract_fields (form_inputs form) [])))"
    by (rule build_Inr)
  show ?thesis
    using f by (auto simp: Let_def fd map_of_built)
qed

theorem other_fields_unchanged_witness:
  "build_form_data_from_page py_tables (demo_page (ustr ''rarpol.asp#top'') submit_inputs)
      (ustr ''wvw1'') (ustr ''1234'')
    = Inr (ustr ''https://prog.rarom.ro/rarpol/rarpol.asp'',
        [(ustr ''lang'', ustr ''ro''), (ustr ''trimite'', ustr ''Caut'' @ [259]),
         (ustr ''nr_id'', ustr ''WVW1''), (ustr ''verif_cod'', ustr ''1234'')])
   \<and> map_of (extract_fields submit_inputs []) (ustr ''lang'') = Some (ustr ''ro'')
   \<and> map_of [(ustr ''lang'', ustr ''ro''), (ustr ''trimite'', ustr ''Caut'' @ [259]),
         (ustr ''nr_id'', ustr ''WVW1''), (ustr ''verif_cod'', ustr ''1234'')] (ustr ''lang'')
       = Some (ustr ''ro'')"
proof -
  from other_fields_unchanged [OF submit_build]
  obtain form where f: "find_form (demo_page (ustr ''rarpol.asp#top'') submit_inputs) = Some form"
    and r: "\<And>k v. map_of (extract_fields (form_inputs form) []) k = Some v \<Longrightarrow> k \<noteq> ustr ''nr_id''
        \<Longrightarrow> k \<noteq> captcha_field (extract_fields (form_inputs form) [])
        \<Longrightarrow> \<not> (k = ustr ''trimite'' \<and> v = [])
        \<Longrightarrow> map_of [(ustr ''lang'', ustr ''ro''), (ustr ''trimite'', ustr ''Caut'' @ [259]),
         (ustr ''nr_id'', ustr ''WVW1''), (ustr ''verif_cod'', ustr ''1234'')] k = Some v"
    by (auto simp: Let_def)
  from f have inputs: "form_inputs form = submit_inputs"
    by (auto simp: find_form_def demo_page_def)
  have ex: "map_of (extract_fields submit_inputs []) (ustr ''lang'') = Some (ustr ''ro'')"
    by (simp add: submit_inputs_def ustr_def)
  have "map_of [(ustr ''lang'', ustr ''ro''), (ustr ''trimite'', ustr ''Caut'' @ [259]),
         (ustr ''nr_id'', ustr ''WVW1''), (ustr ''verif_cod'', ustr ''1234'')] (ustr ''lang'')
       = Some (ustr ''ro'')"
  proof (rule r)
    show "map_of (extract_fields (form_inputs form) []) (ustr ''lang'') = Some (ustr ''ro'')"
      using ex by (simp add: inputs)
    show "ustr ''lang'' \<noteq> ustr ''nr_id''" by (simp add: ustr_def)
    show "ustr ''lang'' \<noteq> captcha_field (extract_fields (form_inputs form) [])"
      using captcha_field_cases [of "extract_fields (form_inputs form) []"]
      by (auto simp: ustr_def)
    show "\<not> (ustr ''lang'' = ustr ''trimite'' \<and> ustr ''ro'' = [])" by (simp add: ustr_def)
  qed
  with submit_build ex show ?thesis by blast
qed

text \<open>
  Claim C6, as stated, fails in its last part: when the form has both \<open>verif_cod\<close> and
  \<open>antirobot\<close> and the extracted value of \<open>antirobot\<close> is already the code, two CAPTCHA
  fields of the built form data hold the code, not exactly one.
\<close>

theorem both_captcha_fields_counterexample:
  "build_form_data_from_page py_tables (demo_page (ustr ''/rarpol/rarpol.asp'') both_captcha_inputs)
      (ustr ''wvw1'') (ustr ''1234'')
    = Inr (ustr ''https://prog.rarom.ro/rarpol/rarpol.asp'',
        [(ustr ''verif_cod'', ustr ''1234''), (ustr ''antirobot'', ustr ''1234''),
         (ustr ''nr_id'', ustr ''WVW1'')])
   \<and> ustr ''verif_cod'' \<noteq> ustr ''antirobot''"
  by (simp add: form_eval resolve_action_rules startswith_def)

text \<open>
  Claim C6, amended. The code is written to \<open>verif_cod\<close> when the extracted form has it,
  else to \<open>antirobot\<close> when the form has that, else to a new \<open>verif_cod\<close>; exactly one
  CAPTCHA field is written: the other one keeps its extracted value (\<open>antirobot\<close>, when
  both exist) or stays absent. Each key occurs once in the built form data.
\<close>

theorem captcha_field_choice:
  assumes "build_form_data_from_page U sp vin code = Inr (post_url, fd)"
  shows "\<exists>form. find_form sp = Some form \<and> distinct (map fst fd) \<and>
    (let ex = extract_fields (form_inputs form) [] in
      (has_key (ustr ''verif_cod'') ex \<longrightarrow>
         map_of fd (ustr ''verif_cod'') = Some code
         \<and> map_of fd (ustr ''antirobot'') = map_of ex (ustr ''antirobot''))
      \<and> (\<not> has_key (ustr ''verif_cod'') ex \<and> has_key (ustr ''antirobot'') ex \<longrightarrow>
         map_of fd (ustr ''antirobot'') = Some code \<and> map_of fd (ustr ''verif_cod'') = None)
      \<and> (\<not> has_key (ustr ''verif_cod'') ex \<and> \<not> has_key (ustr ''antirobot'') ex \<longrightarrow>
         map_of fd (ustr ''verif_cod'') = Some code \<and> map_of fd (ustr ''antirobot'') = None))"
proof -
  from assms obtain form where f: "find_form sp = Some form"
    and fd: "fd = set_submit (set_captcha code (set_vin U vin
        (extract_fields (form_inputs form) [])))"
    by (rule build_Inr)
  have d: "distinct (map fst fd)"
    unfolding fd by (rule distinct_built) (simp add: distinct_extract_fields)
  show ?thesis
    using f d key_names_distinct
    by (auto simp: Let_def fd map_of_built captcha_field_def has_key_def)
qed

theorem captcha_field_choice_witness:
  "build_form_data_from_page py_tables (demo_page (ustr ''/rarpol/rarpol.asp'') both_captcha_inputs)
      (ustr ''wvw1'') (ustr ''1234'')
    = Inr (ustr ''https://prog.rarom.ro/rarpol/rarpol.asp'',
        [(ustr ''verif_cod'', ustr ''1234''), (ustr ''antirobot'', ustr ''1234''),
         (ustr ''nr_id'', ustr ''WVW1'')])
   \<and> has_key (ustr ''verif_cod'') (extract_fields both_captcha_inputs [])
   \<and> map_of [(ustr ''verif_cod'', ustr ''1234''), (ustr ''antirobot'', ustr ''1234''),
         (ustr ''nr_id'', ustr ''WVW1'')] (ustr ''verif_cod'') = Some (ustr ''1234'')"
proof -
  from captcha_field_choice [OF both_captcha_build]
  obtain form
    where f: "find_form (demo_page (ustr ''/rarpol/rarpol.asp'') both_captcha_inputs) = Some form"
    and r: "has_key (ustr ''verif_cod'') (extract_fields (form_inputs form) []) \<longrightarrow>
       map_of [(ustr ''verif_cod'', ustr ''1234''), (ustr ''antirobot'', ustr ''1234''),
         (ustr ''nr_id'', ustr ''WVW1'')] (ustr ''verif_cod'') = Some (ustr ''1234'')"
    by (auto simp: Let_def)
  from f have inputs: "form_inputs form = both_captcha_inputs"
    by (auto simp: find_form_def demo_page_def)
  have k: "has_key (ustr ''verif_cod'') (extract_fields both_captcha_inputs [])"
    by (simp add: both_captcha_inputs_def has_key_def ustr_def)
  with r inputs have "map_of [(ustr ''verif_cod'', ustr ''1234''), (ustr ''antirobot'', ustr ''1234''),
         (ustr ''nr_id'', ustr ''WVW1'')] (ustr ''verif_cod'') = Some (ustr ''1234'')"
    by simp
  with both_captcha_build k show ?thesis by blast
qed

section \<open>Properties of the result parser\<close>

lemma startswith_length:
  assumes "startswith s p"
  shows "length p \<le> length s"
proof -
  from assms have "take (length p) s = p"
    by (simp add: startswith_def)
  then have "length (take (length p) s) = length p"
    by (simp only:)
  then show ?thesis
    unfolding length_take by linarith
qed

lemma contains_length: "contains sep s \<Longrightarrow> length sep \<le> length s"
proof (induction s)
  case Nil
  then show ?case by simp
next
  case (Cons c cs)
  from Cons.prems have "startswith (c # cs) sep \<or> contains sep cs" by simp
  then show ?case
  proof
    assume "startswith (c # cs) sep"
    then show ?thesis by (rule startswith_length)
  next
    assume "contains sep cs"
    then have "length sep \<le> length cs" by (rule Cons.IH)
    then show ?thesis by simp
  qed
qed

lemma split_once_Some_iff_contains:
  "sep \<noteq> [] \<Longrightarrow> (split_once sep s \<noteq> None) = contains sep s"
  by (induction s) auto

lemma split_once_append:
  "split_once sep s = Some (a, b) \<Longrightarrow> s = a @ sep @ b"
proof (induction s arbitrary: a)
  case Nil
  then show ?case by simp
next
  case (Cons c cs)
  show ?case
  proof (cases "startswith (c # cs) sep")
    case True
    with Cons.prems have "a = []" "b = drop (length sep) (c # cs)" by auto
    moreover from True have "take (length sep) (c # cs) = sep" by (simp add: startswith_def)
    ultimately show ?thesis
      using append_take_drop_id [of "length sep" "c # cs"] by (simp only: append_Nil)
  next
    case False
    with Cons.prems obtain a' where "split_once sep cs = Some (a', b)" "a = c # a'"
      by auto
    with Cons.IH show ?thesis by auto
  qed
qed

lemma take_append_long: "n \<le> length ys \<Longrightarrow> take n (ys @ zs) = take n ys"
  by simp

lemma startswith_append_butlast:
  assumes "startswith (x @ butlast sep) sep"
  shows "startswith (x @ sep @ y) sep"
proof -
  define ys where "ys = x @ butlast sep"
  define zs where "zs = drop (length sep - 1) sep @ y"
  from assms have t: "take (length sep) ys = sep"
    by (simp add: startswith_def ys_def)
  then have "length (take (length sep) ys) = length sep"
    by (simp only:)
  then have le: "length sep \<le> length ys"
    unfolding length_take by linarith
  have "butlast sep @ drop (length sep - 1) sep = sep"
    by (simp add: butlast_conv_take)
  then have "x @ sep @ y = ys @ zs"
    by (simp add: ys_def zs_def)
  moreover have "take (length sep) (ys @ zs) = sep"
  proof -
    have "take (length sep) (ys @ zs) = take (length sep) ys"
      using le by (rule take_append_long)
    also have "\<dots> = sep" by (rule t)
    finally show ?thesis .
  qed
  ultimately show ?thesis
    unfolding startswith_def by (simp only:)
qed

lemma split_once_first:
  "sep \<noteq> [] \<Longrightarrow> split_once sep s = Some (a, b) \<Longrightarrow> \<not> contains sep (a @ butlast sep)"
proof (induction s arbitrary: a)
  case Nil
  then show ?case by simp
next
  case (Cons c cs)
  show ?case
  proof (cases "startswith (c # cs) sep")
    case True
    with Cons.prems have "a = []" by auto
    moreover have "\<not> contains sep (butlast sep)"
    proof
      assume "contains sep (butlast sep)"
      then have "length sep \<le> length (butlast sep)"
        by (rule contains_length)
      moreover have "length (butlast sep) = length sep - 1"
        by (rule length_butlast)
      moreover have "0 < length sep"
        using Cons.prems(1) by (rule length_greater_0_conv [THEN iffD2])
      ultimately show False by linarith
    qed
    ultimately show ?thesis by simp
  next
    case False
    with Cons.prems obtain a' where s: "split_once sep cs = Some (a', b)" and a: "a = c # a'"
      by auto
    from s have cs: "cs = a' @ sep @ b" by (rule split_once_append)
    have "\<not> startswith ((c # a') @ butlast sep) sep"
      using False startswith_append_butlast [of "c # a'" sep b] cs by auto
    moreover have "\<not> contains sep (a' @ butlast sep)"
      using Cons.IH [OF Cons.prems(1) s] .
    ultimately show ?thesis by (simp add: a)
  qed
qed

lemma py_split_acc_nonempty:
  "cur \<noteq> [] \<Longrightarrow> py_split_acc sp cur s
     = (cur @ takeWhile (\<lambda>c. \<not> sp c) s) # py_split_acc sp [] (dropWhile (\<lambda>c. \<not> sp c) s)"
  by (induction s arbitrary: cur) auto

lemma py_split_acc_empty:
  "py_split_acc sp [] s =
    (if dropWhile sp s = [] then []
     else takeWhile (\<lambda>c. \<not> sp c) (dropWhile sp s)
       # py_split_acc sp [] (dropWhile (\<lambda>c. \<not> sp c) (dropWhile sp s)))"
proof (induction s)
  case Nil
  show ?case by simp
next
  case (Cons c cs)
  show ?case
  proof (cases "sp c")
    case True
    then have "py_split_acc sp [] (c # cs) = py_split_acc sp [] cs"
      and "dropWhile sp (c # cs) = dropWhile sp cs"
      by simp_all
    then show ?thesis
      using Cons.IH by (simp only:)
  next
    case False
    then have "py_split_acc sp [] (c # cs) = py_split_acc sp [c] cs"
      by simp
    also have "\<dots> = ([c] @ takeWhile (\<lambda>c. \<not> sp c) cs)
        # py_split_acc sp [] (dropWhile (\<lambda>c. \<not> sp c) cs)"
      by (rule py_split_acc_nonempty) simp
    finally show ?thesis
      using False by simp
  qed
qed

lemma dropWhile_none: "(\<forall>c\<in>set t. \<not> P c) \<Longrightarrow> dropWhile P t = t"
  by (cases t) auto

lemma py_strip_token: "\<forall>c\<in>set t. \<not> uc_space U c \<Longrightarrow> py_strip U t = t"
  by (simp add: py_strip_def dropWhile_none)

lemma split_sep_nonempty: "split_sep d s \<noteq> []"
  by (induction s) (auto split: list.splits)

lemma split_sep_absent: "d \<notin> set s \<Longrightarrow> split_sep d s = [s]"
  by (induction s) auto

lemma split_sep_append: "d \<notin> set a \<Longrightarrow> split_sep d (a @ d # rest) = a # split_sep d rest"
  by (induction a) auto

lemma length_split_sep: "length (split_sep d s) = Suc (count_list s d)"
  using split_sep_nonempty [of d]
  by (induction s) (auto split: list.splits)

lemma marker_valid_until_nonempty: "marker_valid_until \<noteq> []"
  by (simp add: marker_valid_until_def ustr_def)

lemma parse_new_format_eq:
  assumes "split_once marker_valid_until lower = Some (before, fragment)"
  shows "parse_new_format U lower =
    (let token = takeWhile (\<lambda>c. \<not> uc_space U c) (dropWhile (uc_space U) fragment);
         raw_date = strip_chars [46] token in
     if token = [] then Inl (Exn IndexError (ustr ''list index out of range'') None)
     else (case split_sep 45 raw_date of
       [day, month, year] \<Rightarrow> Inr (year @ [45] @ month_get month @ [45] @ zfill 2 day)
     | _ \<Rightarrow> Inl (Exn ValueError (ustr ''wrong number of values to unpack'') None)))"
proof (cases "dropWhile (uc_space U) fragment = []")
  case True
  have tok: "takeWhile (\<lambda>c. \<not> uc_space U c) (dropWhile (uc_space U) fragment) = []"
    by (simp only: True takeWhile.simps)
  have "py_split U fragment = []"
    unfolding py_split_def by (subst py_split_acc_empty) (simp only: True refl if_True)
  with assms show ?thesis
    by (simp add: parse_new_format_def tok)
next
  case False
  define token where "token = takeWhile (\<lambda>c. \<not> uc_space U c) (dropWhile (uc_space U) fragment)"
  from False have "\<not> uc_space U (hd (dropWhile (uc_space U) fragment))"
    by (rule hd_dropWhile)
  with False have ne: "token \<noteq> []"
    by (cases "dropWhile (uc_space U) fragment") (auto simp: token_def)
  have "\<forall>c\<in>set token. \<not> uc_space U c"
    unfolding token_def by (auto dest: set_takeWhileD)
  then have strip: "py_strip U token = token"
    by (rule py_strip_token)
  have "py_split U fragment = token
      # py_split_acc (uc_space U) []
          (dropWhile (\<lambda>c. \<not> uc_space U c) (dropWhile (uc_space U) fragment))"
    unfolding py_split_def token_def
    by (subst py_split_acc_empty) (simp only: False if_False)
  with assms ne strip show ?thesis
    by (simp add: parse_new_format_def token_def [symmetric] Let_def)
qed

lemma split_sep_three:
  assumes "45 \<notin> set day" "45 \<notin> set month" "45 \<notin> set year"
  shows "split_sep 45 (day @ [45] @ month @ [45] @ year) = [day, month, year]"
  using assms by (simp add: split_sep_append split_sep_absent)

lemma split_sep_not_three:
  assumes "count_list raw 45 \<noteq> 2"
  shows "(case split_sep 45 raw of [day, month, year] \<Rightarrow> f day month year | _ \<Rightarrow> g) = g"
proof -
  from assms have "length (split_sep 45 raw) \<noteq> 3"
    by (simp add: length_split_sep)
  then show ?thesis
    by (auto split: list.splits)
qed

lemma new_format_example:
  "parse_result py_tables (text_page (marker_valid_until @ ustr '' 5-mar-2026''))
    = (ustr ''Valid'', ustr ''2026-03-05'')"
  by (simp add: parse_result_def content_text_def text_page_def parse_new_format_def
      marker_valid_until_def marker_no_record_def py_tables_def ustr_def ascii_lower_def
      startswith_def py_split_def py_strip_def strip_chars_def lstrip_chars_def month_get_def
      MONTH_MAP_def zfill_def)

lemmas parser_eval = parse_result_def content_text_def text_page_def parse_new_format_def
  marker_valid_until_def marker_no_record_def marker_old_format_def py_tables_def ustr_def
  ascii_lower_def startswith_def py_split_def py_strip_def strip_chars_def lstrip_chars_def
  month_get_def MONTH_MAP_def zfill_def no_record_text_def

text \<open>
  Claim C7. When the lower-cased text the parser reads (the text of the results container,
  or the whole response when there is none) contains the no-record phrase, the status is
  \<open>Not Found\<close> and the expiration date is \<open>Unknown\<close>; when it does not, the status is
  \<open>Valid\<close>.
\<close>

theorem no_record_status:
  "(contains marker_no_record (uc_lower U (content_text page)) \<longrightarrow>
      parse_result U page = (ustr ''Not Found'', ustr ''Unknown''))
   \<and> (\<not> contains marker_no_record (uc_lower U (content_text page)) \<longrightarrow>
      fst (parse_result U page) = ustr ''Valid'')"
  by (simp add: parse_result_def Let_def)

theorem no_record_status_witness:
  "parse_result py_tables (text_page no_record_text) = (ustr ''Not Found'', ustr ''Unknown'')
   \<and> fst (parse_result py_tables (text_page (ustr ''ITP valabil''))) = ustr ''Valid''"
proof -
  have a: "contains marker_no_record (uc_lower py_tables (content_text (text_page no_record_text)))"
    by (simp add: parser_eval)
  have b: "\<not> contains marker_no_record
      (uc_lower py_tables (content_text (text_page (ustr ''ITP valabil''))))"
    by (simp add: parser_eval)
  from no_record_status [of py_tables "text_page no_record_text"] a
  have "parse_result py_tables (text_page no_record_text) = (ustr ''Not Found'', ustr ''Unknown'')"
    by blast
  moreover from no_record_status [of py_tables "text_page (ustr ''ITP valabil'')"] b
  have "fst (parse_result py_tables (text_page (ustr ''ITP valabil''))) = ustr ''Valid''"
    by blast
  ultimately show ?thesis by (rule conjI)
qed

text \<open>
  Claim C8. When the lower-cased text has no no-record phrase and contains the phrase
  \<open>valabil\<close>U+0103 \<open>p\<close>U+00E2\<open>n\<close>U+0103 \<open>la\<close>, the status is \<open>Valid\<close> and the parser
  takes what follows the first occurrence of the phrase, skips whitespace, reads up to the
  next whitespace, and strips dots from both ends. When that token is day, \<open>-\<close>, month,
  \<open>-\<close>, year, the expiration date is the year, \<open>-\<close>, the month looked up in the table
  (\<open>01\<close> for a month that is not in it), \<open>-\<close>, and the day filled with zeros to two
  characters. When the token does not have exactly two \<open>-\<close> (an empty token included),
  the exception of the parse is caught: the expiration date is \<open>Unknown\<close> and the status
  stays \<open>Valid\<close>. The response text made of the phrase followed by \<open>5-mar-2026\<close> gives
  \<open>2026-03-05\<close>.
\<close>

theorem new_format_expiration:
  assumes no: "\<not> contains marker_no_record (uc_lower U (content_text page))"
    and yes: "contains marker_valid_until (uc_lower U (content_text page))"
  shows "fst (parse_result U page) = ustr ''Valid''
    \<and> (\<exists>before fragment.
         uc_lower U (content_text page) = before @ marker_valid_until @ fragment
       \<and> \<not> contains marker_valid_until (before @ butlast marker_valid_until)
       \<and> (let token = takeWhile (\<lambda>c. \<not> uc_space U c) (dropWhile (uc_space U) fragment);
               raw_date = strip_chars [46] token in
            (\<forall>day month year.
                raw_date = day @ [45] @ month @ [45] @ year
                  \<and> 45 \<notin> set day \<and> 45 \<notin> set month \<and> 45 \<notin> set year \<longrightarrow>
                snd (parse_result U page) = year @ [45] @ month_get month @ [45] @ zfill 2 day)
          \<and> (count_list raw_date 45 \<noteq> 2 \<longrightarrow> snd (parse_result U page) = ustr ''Unknown'')))
    \<and> map month_get [ustr ''ian'', ustr ''feb'', ustr ''mar'', ustr ''apr'', ustr ''mai'',
          ustr ''iun'', ustr ''iul'', ustr ''aug'', ustr ''sept'', ustr ''oct'', ustr ''nov'',
          ustr ''dec'']
        = [ustr ''01'', ustr ''02'', ustr ''03'', ustr ''04'', ustr ''05'', ustr ''06'',
           ustr ''07'', ustr ''08'', ustr ''09'', ustr ''10'', ustr ''11'', ustr ''12'']
    \<and> (\<forall>m. map_of MONTH_MAP m = None \<longrightarrow> month_get m = ustr ''01'')
    \<and> (\<forall>c. c \<noteq> 43 \<and> c \<noteq> 45 \<longrightarrow> zfill 2 [c] = [48, c])
    \<and> (\<forall>d. 2 \<le> length d \<longrightarrow> zfill 2 d = d)
    \<and> parse_result py_tables (text_page (marker_valid_until @ ustr '' 5-mar-2026''))
        = (ustr ''Valid'', ustr ''2026-03-05'')"
proof -
  define lower where "lower = uc_lower U (content_text page)"
  from yes obtain before fragment
    where sp: "split_once marker_valid_until lower = Some (before, fragment)"
    using split_once_Some_iff_contains [OF marker_valid_until_nonempty, of lower]
    by (auto simp: lower_def)
  have dec: "lower = before @ marker_valid_until @ fragment"
    using sp by (rule split_once_append)
  have first: "\<not> contains marker_valid_until (before @ butlast marker_valid_until)"
    using marker_valid_until_nonempty sp by (rule split_once_first)
  have res: "parse_result U page
      = (ustr ''Valid'', case parse_new_format U lower of Inr d \<Rightarrow> d | Inl e \<Rightarrow> ustr ''Unknown'')"
    using no yes by (simp add: parse_result_def Let_def lower_def)
  define token where "token = takeWhile (\<lambda>c. \<not> uc_space U c) (dropWhile (uc_space U) fragment)"
  define raw_date where "raw_date = strip_chars [46] token"
  have pnf: "parse_new_format U lower =
     (if token = [] then Inl (Exn IndexError (ustr ''list index out of range'') None)
      else (case split_sep 45 raw_date of
        [day, month, year] \<Rightarrow> Inr (year @ [45] @ month_get month @ [45] @ zfill 2 day)
      | _ \<Rightarrow> Inl (Exn ValueError (ustr ''wrong number of values to unpack'') None)))"
    unfolding parse_new_format_eq [OF sp] token_def raw_date_def Let_def ..
  have good: "snd (parse_result U page) = year @ [45] @ month_get month @ [45] @ zfill 2 day"
    if raw: "raw_date = day @ [45] @ month @ [45] @ year"
      and d: "45 \<notin> set day" "45 \<notin> set month" "45 \<notin> set year"
    for day month year
  proof -
    have "token \<noteq> []"
      using raw by (auto simp: raw_date_def strip_chars_def lstrip_chars_def)
    moreover have "split_sep 45 raw_date = [day, month, year]"
      unfolding raw using d by (rule split_sep_three)
    ultimately show ?thesis
      by (simp add: res pnf)
  qed
  have bad: "snd (parse_result U page) = ustr ''Unknown''" if "count_list raw_date 45 \<noteq> 2"
    by (simp add: res pnf split_sep_not_three [OF that])
  have months: "map month_get [ustr ''ian'', ustr ''feb'', ustr ''mar'', ustr ''apr'', ustr ''mai'',
          ustr ''iun'', ustr ''iul'', ustr ''aug'', ustr ''sept'', ustr ''oct'', ustr ''nov'',
          ustr ''dec'']
        = [ustr ''01'', ustr ''02'', ustr ''03'', ustr ''04'', ustr ''05'', ustr ''06'',
           ustr ''07'', ustr ''08'', ustr ''09'', ustr ''10'', ustr ''11'', ustr ''12'']"
    by (simp add: month_get_def MONTH_MAP_def ustr_def)
  have unknown: "\<forall>m. map_of MONTH_MAP m = None \<longrightarrow> month_get m = ustr ''01''"
    by (simp add: month_get_def)
  have pad: "\<forall>c. c \<noteq> 43 \<and> c \<noteq> 45 \<longrightarrow> zfill 2 [c] = [48, c]"
    by (simp add: zfill_def numeral_2_eq_2)
  have keep: "\<forall>d. 2 \<le> length d \<longrightarrow> zfill 2 d = d"
    by (simp add: zfill_def)
  have main: "\<exists>before fragment.
         uc_lower U (content_text page) = before @ marker_valid_until @ fragment
       \<and> \<not> contains marker_valid_until (before @ butlast marker_valid_until)
       \<and> (let token = takeWhile (\<lambda>c. \<not> uc_space U c) (dropWhile (uc_space U) fragment);
               raw_date = strip_chars [46] token in
            (\<forall>day month year.
                raw_date = day @ [45] @ month @ [45] @ year
                  \<and> 45 \<notin> set day \<and> 45 \<notin> set month \<and> 45 \<notin> set year \<longrightarrow>
                snd (parse_result U page) = year @ [45] @ month_get month @ [45] @ zfill 2 day)
          \<and> (count_list raw_date 45 \<noteq> 2 \<longrightarrow> snd (parse_result U page) = ustr ''Unknown''))"
    using dec first good bad
    unfolding Let_def lower_def token_def raw_date_def by blast
  have valid: "fst (parse_result U page) = ustr ''Valid''"
    by (simp add: res)
  from valid main months unknown pad keep new_format_example show ?thesis
    by (intro conjI)
qed

theorem new_format_expiration_witness:
  "fst (parse_result py_tables (text_page (marker_valid_until @ ustr '' 5-mar-2026'')))
      = ustr ''Valid''
   \<and> parse_result py_tables (text_page (marker_valid_until @ ustr '' 5-mar-2026''))
      = (ustr ''Valid'', ustr ''2026-03-05'')
   \<and> zfill 2 [53] = [48, 53]"
proof -
  have no: "\<not> contains marker_no_record
      (uc_lower py_tables (content_text (text_page (marker_valid_until @ ustr '' 5-mar-2026''))))"
    by (simp add: parser_eval)
  have yes: "contains marker_valid_until
      (uc_lower py_tables (content_text (text_page (marker_valid_until @ ustr '' 5-mar-2026''))))"
    by (simp add: parser_eval)
  note inst = new_format_expiration [OF no yes]
  from inst have a: "fst (parse_result py_tables
      (text_page (marker_valid_until @ ustr '' 5-mar-2026''))) = ustr ''Valid''"
    by (rule conjunct1)
  from inst have b: "parse_result py_tables (text_page (marker_valid_until @ ustr '' 5-mar-2026''))
      = (ustr ''Valid'', ustr ''2026-03-05'')"
    by blast
  from inst have "\<forall>c::nat. c \<noteq> 43 \<and> c \<noteq> 45 \<longrightarrow> zfill 2 [c] = [48, c]"
    by blast
  then have c: "zfill 2 [53] = [48, 53]"
    by simp
  from a b c show ?thesis by (intro conjI)
qed

section \<open>Properties of the fetch orchestrator\<close>

lemma submit_form_trace: "fst (submit_form U rt io post_url fd) = [Post post_url fd]"
  by (simp add: submit_form_def split: http.splits sum.splits)

lemma solve_and_build_posts:
  assumes "Post url fd \<in> set (fst (solve_and_build U vin rt io sp content))"
  shows "\<exists>captcha_text. solve_captcha_with_local_api U (io_ocr io) = Inr captcha_text
    \<and> fullmatch_digits U 4 4 (re_sub_nondigit U captcha_text)
    \<and> build_form_data_from_page U sp vin (re_sub_nondigit U captcha_text) = Inr (url, fd)"
proof (cases "solve_captcha_with_local_api U (io_ocr io)")
  case (Inl err)
  with assms show ?thesis
    by (simp add: solve_and_build_def split: if_splits)
next
  case (Inr captcha_text)
  show ?thesis
  proof (cases "build_form_data_from_page U sp vin (re_sub_nondigit U captcha_text)")
    case (Inl e)
    with assms Inr show ?thesis
      by (simp add: solve_and_build_def Let_def split: if_splits)
  next
    case built: (Inr uf)
    obtain u f where uf: "uf = (u, f)" by (cases uf)
    have tr: "fst (submit_form U rt io u f) = [Post u f]"
      by (rule submit_form_trace)
    from assms Inr built uf tr show ?thesis
      by (auto simp: solve_and_build_def Let_def split: if_splits prod.splits)
  qed
qed

lemma download_captcha_posts:
  assumes "Post url fd \<in> set (fst (download_captcha U vin rt io sp))"
  shows "Post url fd \<in> (\<Union>content. set (fst (solve_and_build U vin rt io sp content)))"
  using assms
  by (auto simp: download_captcha_def Let_def
      split: option.splits if_splits http.splits sum.splits prod.splits)
    (metis fst_conv)

lemma attempt_body_posts_download:
  assumes "Post url fd \<in> set (fst (attempt_body U vin rt io))"
  shows "Post url fd \<in> (\<Union>sp. set (fst (download_captcha U vin rt io sp)))"
  using assms
  by (auto simp: attempt_body_def split: if_splits http.splits sum.splits prod.splits)
    (metis fst_conv)

lemma attempt_body_posts:
  assumes "Post url fd \<in> set (fst (attempt_body U vin rt io))"
  shows "\<exists>sp captcha_text. solve_captcha_with_local_api U (io_ocr io) = Inr captcha_text
    \<and> fullmatch_digits U 4 4 (re_sub_nondigit U captcha_text)
    \<and> build_form_data_from_page U sp vin (re_sub_nondigit U captcha_text) = Inr (url, fd)"
proof -
  from attempt_body_posts_download [OF assms] obtain sp
    where "Post url fd \<in> set (fst (download_captcha U vin rt io sp))" by blast
  from download_captcha_posts [OF this] obtain content
    where "Post url fd \<in> set (fst (solve_and_build U vin rt io sp content))" by blast
  from solve_and_build_posts [OF this] show ?thesis by blast
qed

lemma retry_loop_posts:
  assumes "Post url fd \<in> set (fst (retry_loop U vin w rt attempts))"
  shows "\<exists>attempt\<in>set attempts. \<exists>rt'. Post url fd \<in> set (fst (attempt_body U vin rt' (w attempt)))"
  using assms
proof (induction attempts arbitrary: rt)
  case Nil
  then show ?case by simp
next
  case (Cons a rest)
  obtain tr rt' r where ab: "attempt_body U vin rt (w a) = (tr, rt', r)"
    by (cases "attempt_body U vin rt (w a)")
  show ?case
  proof (cases "Post url fd \<in> set tr")
    case True
    with ab have "Post url fd \<in> set (fst (attempt_body U vin rt (w a)))" by simp
    then show ?thesis by auto
  next
    case False
    with Cons.prems ab have "Post url fd \<in> set (fst (retry_loop U vin w rt' rest))"
      by (auto split: option.splits if_splits prod.splits)
    from Cons.IH [OF this] show ?thesis by auto
  qed
qed

lemma fetch_itp_trace: "fst (fetch_itp U w now vin) = fst (retry_loop U vin w empty_page [1, 2, 3])"
  by (simp add: fetch_itp_def case_prod_beta split: sum.splits)

lemma built_captcha_value:
  assumes "build_form_data_from_page U sp vin code = Inr (url, fd)"
  shows "(case map_of fd (ustr ''verif_cod'') of
      Some c \<Rightarrow> c = code
    | None \<Rightarrow> map_of fd (ustr ''antirobot'') = Some code)"
proof -
  from assms obtain form where "find_form sp = Some form"
    and "url = resolve_action (action_of form)"
    and fd: "fd = set_submit (set_captcha code (set_vin U vin
        (extract_fields (form_inputs form) [])))"
    by (rule build_Inr)
  show ?thesis
    using key_names_distinct
    by (auto simp: fd map_of_built captcha_field_def has_key_def split: option.splits)
qed









lemmas fetch_eval = attempt_body_def download_captcha_def solve_and_build_def submit_form_def
  captcha_url_of_def attempt_with_def good_world_def failing_world_def cancelled_world_def
  rejected_page_def marker_rejected_def empty_page_def lstrip_chars_def str_nat.simps
  resolve_action_rules


lemma ustr_append: "ustr (a @ b) = ustr a @ ustr b"
  by (simp add: ustr_def)

lemmas run_eval = fetch_eval form_eval ocr_eval parser_eval demo_vin_def demo_now_def
  demo_form_def demo_requests_def demo_post_def

lemma good_attempt:
  "attempt_body py_tables demo_vin empty_page (good_world 1)
    = (demo_requests @ [demo_post (ustr ''1234'')],
       text_page (marker_valid_until @ ustr '' 5-mar-2026''), None)"
  by (simp add: run_eval)







lemma good_trace:
  "fst (fetch_itp py_tables good_world demo_now demo_vin)
    = demo_requests @ [demo_post (ustr ''1234'')]"
  by (simp only: fetch_itp_trace retry_loop.simps good_attempt prod.case option.case fst_conv)

text \<open>
  Claim C1. Every POST that a run of \<open>fetch_itp\<close> makes carries a CAPTCHA value that an
  attempt of the run obtained from the OCR client and cleaned of its non-digits, and this
  value has exactly 4 characters, all digits (so it is not empty): it is the value of the
  field \<open>verif_cod\<close> of the posted form, or of \<open>antirobot\<close> when the form has no
  \<open>verif_cod\<close>.
\<close>

theorem posts_carry_validated_captcha:
  assumes "Post post_url fd \<in> set (fst (fetch_itp U w now vin))"
  shows "\<exists>attempt captcha_text code.
      (attempt = 1 \<or> attempt = 2 \<or> attempt = 3)
    \<and> solve_captcha_with_local_api U (io_ocr (w attempt)) = Inr captcha_text
    \<and> code = re_sub_nondigit U captcha_text
    \<and> length code = 4 \<and> list_all (uc_digit U) code
    \<and> (case map_of fd (ustr ''verif_cod'') of
          Some c \<Rightarrow> c = code
        | None \<Rightarrow> map_of fd (ustr ''antirobot'') = Some code)"
proof -
  from assms have "Post post_url fd \<in> set (fst (retry_loop U vin w empty_page [1, 2, 3]))"
    by (simp only: fetch_itp_trace)
  from retry_loop_posts [OF this] obtain attempt rt
    where a: "attempt \<in> set [1, 2, 3]"
      and p: "Post post_url fd \<in> set (fst (attempt_body U vin rt (w attempt)))"
    by blast
  from attempt_body_posts [OF p] obtain sp captcha_text
    where ocr: "solve_captcha_with_local_api U (io_ocr (w attempt)) = Inr captcha_text"
      and fm: "fullmatch_digits U 4 4 (re_sub_nondigit U captcha_text)"
      and b: "build_form_data_from_page U sp vin (re_sub_nondigit U captcha_text)
        = Inr (post_url, fd)"
    by blast
  from fm have "length (re_sub_nondigit U captcha_text) = 4"
    and "list_all (uc_digit U) (re_sub_nondigit U captcha_text)"
    by (simp_all add: fullmatch_digits_def)
  moreover from a have "attempt = 1 \<or> attempt = 2 \<or> attempt = 3"
    by simp
  ultimately show ?thesis
    using ocr built_captcha_value [OF b] by blast
qed

theorem posts_carry_validated_captcha_witness:
  "demo_post (ustr ''1234'') \<in> set (fst (fetch_itp py_tables good_world demo_now demo_vin))
   \<and> (\<exists>attempt captcha_text code.
      (attempt = 1 \<or> attempt = 2 \<or> attempt = 3)
    \<and> solve_captcha_with_local_api py_tables (io_ocr (good_world attempt)) = Inr captcha_text
    \<and> code = re_sub_nondigit py_tables captcha_text
    \<and> length code = 4 \<and> list_all (uc_digit py_tables) code
    \<and> (case map_of (demo_form (ustr ''1234'')) (ustr ''verif_cod'') of
          Some c \<Rightarrow> c = code
        | None \<Rightarrow> map_of (demo_form (ustr ''1234'')) (ustr ''antirobot'') = Some code))"
proof -
  have h: "Post (ustr ''https://prog.rarom.ro/rarpol/rarpol.asp'') (demo_form (ustr ''1234''))
      \<in> set (fst (fetch_itp py_tables good_world demo_now demo_vin))"
    unfolding good_trace demo_post_def by simp
  have m: "demo_post (ustr ''1234'')
      \<in> set (fst (fetch_itp py_tables good_world demo_now demo_vin))"
    unfolding good_trace by simp
  from m posts_carry_validated_captcha [OF h] show ?thesis
    by (rule conjI)
qed




end
